theory Spec2Isabelle
  imports Complex_Main
begin

section \<open>Free-tier quota guard for a warehouse client\<close>

text \<open>
  A shallow embedding of \<^verbatim>\<open>src/jupyter/py_src/bq_guard.py\<close>. Python exceptions are
  values of the type \<open>exn\<close> and a function that may raise returns \<open>exn + 'a\<close>
  (\<open>Inl\<close> is the raised exception). Python's leading underscore of private functions
  is dropped (\<open>_region_to_location\<close> is \<open>region_to_location\<close>, and so on).
\<close>

subsection \<open>Exceptions and messages\<close>

text \<open>
  Both quota errors are \<^verbatim>\<open>RuntimeError\<close>s that differ in their message only. The
  messages are f-strings around numbers printed with a fixed number of decimals; a message
  is kept here as the numbers it prints. Python computes them by true division of two
  integers, which is the quotient rounded to the nearest double; the model keeps the exact
  quotient as a rational (the two agree whenever the dividend is below \<open>2^53\<close> in
  absolute value, the divisors being powers of two).

  \<open>RuntimeError (Text s)\<close> is a \<^verbatim>\<open>RuntimeError\<close> (or an instance of a subclass) with
  any other text, as the client library may raise; \<open>OtherException s\<close> is an exception
  derived from \<^verbatim>\<open>Exception\<close> that is not a \<^verbatim>\<open>RuntimeError\<close>. All exceptions of
  the model are instances of \<^verbatim>\<open>Exception\<close>, which is what \<^verbatim>\<open>except Exception\<close>
  catches; an interrupt of the interpreter (\<^verbatim>\<open>KeyboardInterrupt\<close>, \<^verbatim>\<open>SystemExit\<close>) is not
  an answer of the client and is not modelled.
\<close>

datatype message =
    QueryLimitMessage (used_tb: rat) (planned_tb: rat) (remain_tb: rat)
  | StorageLimitMessage (used_gb: rat) (limit_gb: rat)
  | Text string

datatype exn =
    RuntimeError message
  | OverflowError
  | ValueError
  | IndexError
  | KeyError string
  | OtherException string

subsection \<open>Strings\<close>

text \<open>
  Region names are ASCII; \<^verbatim>\<open>str.upper\<close>, \<^verbatim>\<open>str.strip\<close>, \<^verbatim>\<open>str.startswith\<close> and
  \<^verbatim>\<open>str.split(sep, 1)\<close> are modelled on ASCII characters. The whitespace of
  \<^verbatim>\<open>str.strip()\<close> in that range is tab, line feed, vertical tab, form feed, carriage
  return, the separators 28 to 31, and the space.
\<close>

definition upper_char :: "char \<Rightarrow> char" where
  "upper_char c =
     (let n = (of_char c :: nat) in if 97 \<le> n \<and> n \<le> 122 then char_of (n - 32) else c)"

definition upper :: "string \<Rightarrow> string" where
  "upper s = map upper_char s"

definition isspace :: "char \<Rightarrow> bool" where
  "isspace c = (let n = (of_char c :: nat) in (9 \<le> n \<and> n \<le> 13) \<or> (28 \<le> n \<and> n \<le> 32))"

definition lstrip :: "string \<Rightarrow> string" where
  "lstrip s = dropWhile isspace s"

definition rstrip :: "string \<Rightarrow> string" where
  "rstrip s = rev (dropWhile isspace (rev s))"

definition strip :: "string \<Rightarrow> string" where
  "strip s = rstrip (lstrip s)"

definition startswith :: "string \<Rightarrow> string \<Rightarrow> bool" where
  "startswith s p = (take (length p) s = p)"

text \<open>\<^verbatim>\<open>s.split(sep, 1)\<close> for a separator of one character: at most one split, at the
  first occurrence.\<close>

definition split1 :: "string \<Rightarrow> char \<Rightarrow> string list" where
  "split1 s sep =
     (if sep \<in> set s then [takeWhile (\<lambda>c. c \<noteq> sep) s, tl (dropWhile (\<lambda>c. c \<noteq> sep) s)]
      else [s])"

text \<open>\<^verbatim>\<open>xs[i]\<close> for a non-negative index: out of range raises \<^verbatim>\<open>IndexError\<close>.\<close>

definition getitem :: "'a list \<Rightarrow> nat \<Rightarrow> exn + 'a" where
  "getitem xs i = (if i < length xs then Inr (xs ! i) else Inl IndexError)"

subsection \<open>Region names\<close>

text \<open>
  \<^verbatim>\<open>
  def _region_to_location(region: str) -> str:
      region = region.strip()
      if region.upper() in ("EU", "US"):
          return region.upper()
      if region.startswith("region-"):
          return region.split("-", 1)[1].upper()
      return region.upper()
  \<close>
\<close>

definition region_to_location :: "string \<Rightarrow> exn + string" where
  "region_to_location region0 =
     (let region = strip region0 in
      if upper region \<in> set [''EU'', ''US''] then Inr (upper region)
      else if startswith region ''region-'' then
        (case getitem (split1 region CHR ''-'') 1 of
           Inl e \<Rightarrow> Inl e
         | Inr part \<Rightarrow> Inr (upper part))
      else Inr (upper region))"

subsection \<open>Dates\<close>

text \<open>
  A \<^verbatim>\<open>datetime\<close> in UTC. Python's type holds the years 1 to 9999 of the proleptic
  Gregorian calendar: \<^verbatim>\<open>replace\<close> raises \<^verbatim>\<open>ValueError\<close> when the fields are not a
  date of that calendar, and adding a \<^verbatim>\<open>timedelta\<close> raises \<^verbatim>\<open>OverflowError\<close> when
  the sum leaves the range.
\<close>

record datetime =
  year :: int
  month :: int
  day :: int
  hour :: int
  minute :: int
  second :: int
  microsecond :: int

definition MINYEAR :: int where
  "MINYEAR = 1"

definition MAXYEAR :: int where
  "MAXYEAR = 9999"

definition is_leap :: "int \<Rightarrow> bool" where
  "is_leap y = (y mod 4 = 0 \<and> (y mod 100 \<noteq> 0 \<or> y mod 400 = 0))"

definition days_in_month :: "int \<Rightarrow> int \<Rightarrow> int" where
  "days_in_month y m =
     (if m = 2 then (if is_leap y then 29 else 28)
      else if m \<in> set [4, 6, 9, 11] then 30 else 31)"

definition valid_datetime :: "datetime \<Rightarrow> bool" where
  "valid_datetime d =
     (MINYEAR \<le> year d \<and> year d \<le> MAXYEAR \<and> 1 \<le> month d \<and> month d \<le> 12 \<and>
      1 \<le> day d \<and> day d \<le> days_in_month (year d) (month d) \<and>
      0 \<le> hour d \<and> hour d \<le> 23 \<and> 0 \<le> minute d \<and> minute d \<le> 59 \<and>
      0 \<le> second d \<and> second d \<le> 59 \<and> 0 \<le> microsecond d \<and> microsecond d \<le> 999999)"

text \<open>The check that \<^verbatim>\<open>datetime.replace\<close> makes on the fields of its result.\<close>

definition checked :: "datetime \<Rightarrow> exn + datetime" where
  "checked d = (if valid_datetime d then Inr d else Inl ValueError)"

text \<open>The day after, in the calendar alone (the year is not bounded here).\<close>

definition next_day :: "datetime \<Rightarrow> datetime" where
  "next_day d =
     (if day d < days_in_month (year d) (month d) then d\<lparr>day := day d + 1\<rparr>
      else if month d < 12 then d\<lparr>month := month d + 1, day := 1\<rparr>
      else d\<lparr>year := year d + 1, month := 1, day := 1\<rparr>)"

text \<open>\<^verbatim>\<open>d + timedelta(days=n)\<close> for \<open>n \<ge> 0\<close>.\<close>

fun plus_days :: "datetime \<Rightarrow> nat \<Rightarrow> exn + datetime" where
  "plus_days d 0 = Inr d"
| "plus_days d (Suc n) =
     (let d' = next_day d in if year d' > MAXYEAR then Inl OverflowError else plus_days d' n)"

text \<open>The order of two datetimes of the same time zone: field by field, the year first.\<close>

fun lex_less :: "int list \<Rightarrow> int list \<Rightarrow> bool" where
  "lex_less (x # xs) (y # ys) = (x < y \<or> (x = y \<and> lex_less xs ys))"
| "lex_less _ _ = False"

definition datetime_key :: "datetime \<Rightarrow> int list" where
  "datetime_key d = [year d, month d, day d, hour d, minute d, second d, microsecond d]"

definition datetime_less :: "datetime \<Rightarrow> datetime \<Rightarrow> bool" where
  "datetime_less a b = lex_less (datetime_key a) (datetime_key b)"

text \<open>
  \<^verbatim>\<open>
  def _month_bounds_utc() -> Tuple[datetime, datetime]:
      now = datetime.now(timezone.utc)
      start = now.replace(day=1, hour=0, minute=0, second=0, microsecond=0)
      end = (start.replace(day=28) + timedelta(days=4)).replace(day=1)
      return start, end
  \<close>
  The clock is the argument \<open>now\<close>.
\<close>

definition month_bounds_utc :: "datetime \<Rightarrow> exn + (datetime \<times> datetime)" where
  "month_bounds_utc now =
     (case checked (now\<lparr>day := 1, hour := 0, minute := 0, second := 0, microsecond := 0\<rparr>) of
        Inl e \<Rightarrow> Inl e
      | Inr start \<Rightarrow>
          (case checked (start\<lparr>day := 28\<rparr>) of
             Inl e \<Rightarrow> Inl e
           | Inr d28 \<Rightarrow>
               (case plus_days d28 4 of
                  Inl e \<Rightarrow> Inl e
                | Inr later \<Rightarrow>
                    (case checked (later\<lparr>day := 1\<rparr>) of
                       Inl e \<Rightarrow> Inl e
                     | Inr end_of_month \<Rightarrow> Inr (start, end_of_month)))))"

text \<open>The first instant of the month after the month of \<open>d\<close>, as the calendar has it.\<close>

definition first_of_next_month :: "datetime \<Rightarrow> datetime" where
  "first_of_next_month d =
     \<lparr>year = (if month d = 12 then year d + 1 else year d),
      month = (if month d = 12 then 1 else month d + 1),
      day = 1, hour = 0, minute = 0, second = 0, microsecond = 0\<rparr>"

subsection \<open>The warehouse client and the world\<close>

text \<open>
  The client is the external collaborator (\<^verbatim>\<open>bigquery.Client\<close>); the model holds what it
  answers. Each operation is a function of its request, and an operation that raises
  answers \<open>Inl\<close>. The objects of the library that the guard only hands on are opaque.
\<close>

type_synonym job_config = string
type_synonym query_job = nat
type_synonym dataframe = "int list list"

record dataset_reference =
  ref_project :: string
  ref_dataset_id :: string

record dataset_list_item =
  reference :: dataset_reference

record dataset =
  dataset_id :: string
  location :: "string option"

text \<open>
  What \<^verbatim>\<open>client.query\<close> is called with. The three metadata queries are the three SQL
  texts of the source, with the values that the source puts into them; the last argument
  is the \<^verbatim>\<open>location\<close> of the call.
\<close>

datatype request =
    JobsByProject string datetime datetime string
  | TableStorageByProject string string string
  | TableStorage string string "string option"
  | DryRun string "string option"
  | UserQuery string "job_config option" "string option"

text \<open>A printed line, kept as the numbers that it prints.\<close>

datatype line =
    UsageLine rat rat rat rat
  | SkipLine exn

datatype event =
    Query request
  | ListDatasets string
  | GetDataset dataset_reference
  | Print line

text \<open>
  \<open>metadata_rows\<close> is \<^verbatim>\<open>list(client.query(sql, ...))\<close> for a metadata query: the rows, each
  as the integer of its one column, or the exception of the call or of waiting for the rows.
  \<open>total_bytes_processed\<close> is the estimate of a dry run. \<open>list_datasets\<close> is a lazy
  iterator: the items it yields and, if it fails, the exception that ends the iteration.
  \<open>result_dataframe\<close> is \<^verbatim>\<open>job.result(timeout=timeout).to_dataframe()\<close>, with the
  import of pandas before it.
\<close>

record client =
  project :: string
  metadata_rows :: "request \<Rightarrow> exn + int list"
  total_bytes_processed :: "string \<Rightarrow> string option \<Rightarrow> exn + int"
  list_datasets :: "string \<Rightarrow> dataset_list_item list \<times> exn option"
  get_dataset :: "dataset_reference \<Rightarrow> exn + dataset"
  run_query :: "string \<Rightarrow> job_config option \<Rightarrow> string option \<Rightarrow> exn + query_job"
  result_dataframe :: "query_job \<Rightarrow> rat option \<Rightarrow> exn + dataframe"

text \<open>The world outside: the clock, read by \<^verbatim>\<open>datetime.now\<close>, and what has been sent
  to the client and printed so far, the oldest event first.\<close>

record world =
  utcnow :: datetime
  trace :: "event list"

definition emit :: "event \<Rightarrow> world \<Rightarrow> world" where
  "emit e w = w\<lparr>trace := trace w @ [e]\<rparr>"

text \<open>\<^verbatim>\<open>int(list(job)[0]["column"])\<close>.\<close>

definition first_cell :: "exn + int list \<Rightarrow> exn + int" where
  "first_cell r = (case r of Inl e \<Rightarrow> Inl e | Inr rows \<Rightarrow> getitem rows 0)"

text \<open>\<^verbatim>\<open>s or ""\<close> for an optional string.\<close>

definition or_empty :: "string option \<Rightarrow> string" where
  "or_empty s = (case s of None \<Rightarrow> [] | Some t \<Rightarrow> t)"

text \<open>The truth value of an optional string: \<^verbatim>\<open>None\<close> and \<^verbatim>\<open>""\<close> are false.\<close>

definition truthy :: "string option \<Rightarrow> bool" where
  "truthy s = (case s of None \<Rightarrow> False | Some t \<Rightarrow> t \<noteq> [])"

subsection \<open>The usage probe\<close>

text \<open>
  \<^verbatim>\<open>
  def _sum_query_bytes_billed(client, regions) -> int:
      start, end = _month_bounds_utc()
      total = 0
      for region in regions:
          location = _region_to_location(region)
          sql = f"... FROM `{region}`.INFORMATION_SCHEMA.JOBS_BY_PROJECT ..."
          job = client.query(sql, job_config=..., location=location)
          total += int(list(job)[0]["billed"])
      return total
  \<close>
  \<open>jobs_loop\<close> is the \<^verbatim>\<open>for\<close> loop, with \<open>tot\<close> the sum \<^verbatim>\<open>total\<close> so far.
\<close>

fun jobs_loop ::
  "client \<Rightarrow> datetime \<Rightarrow> datetime \<Rightarrow> string list \<Rightarrow> int \<Rightarrow> world \<Rightarrow> (exn + int) \<times> world"
where
  "jobs_loop c s e [] tot w = (Inr tot, w)"
| "jobs_loop c s e (region # regions) tot w =
     (case region_to_location region of
        Inl x \<Rightarrow> (Inl x, w)
      | Inr loc \<Rightarrow>
          (let req = JobsByProject region s e loc;
               w1 = emit (Query req) w
           in case first_cell (metadata_rows c req) of
                Inl x \<Rightarrow> (Inl x, w1)
              | Inr billed \<Rightarrow> jobs_loop c s e regions (tot + billed) w1))"

definition sum_query_bytes_billed :: "client \<Rightarrow> string list \<Rightarrow> world \<Rightarrow> (exn + int) \<times> world" where
  "sum_query_bytes_billed c regions w =
     (case month_bounds_utc (utcnow w) of
        Inl x \<Rightarrow> (Inl x, w)
      | Inr (s, e) \<Rightarrow> jobs_loop c s e regions 0 w)"

text \<open>
  The body of the inner loop of \<^verbatim>\<open>_sum_storage_bytes\<close>, for one item of
  \<^verbatim>\<open>client.list_datasets\<close>; all of it is inside \<^verbatim>\<open>try: ... except Exception: continue\<close>.
  \<^verbatim>\<open>
  ds_ref = client.get_dataset(ds.reference)
  if (ds_ref.location or "").upper() != location:
      continue
  sql = f"... FROM `{project_id}.{ds_ref.dataset_id}.INFORMATION_SCHEMA.TABLE_STORAGE`"
  job = client.query(sql, location=ds_ref.location)
  total_bytes += int(list(job)[0]["logical_bytes"])
  \<close>
\<close>

definition dataset_step ::
  "client \<Rightarrow> string \<Rightarrow> string \<Rightarrow> int \<times> world \<Rightarrow> dataset_list_item \<Rightarrow> int \<times> world"
where
  "dataset_step c project_id loc tw ds =
     (let total_bytes = fst tw;
          w1 = emit (GetDataset (reference ds)) (snd tw)
      in case get_dataset c (reference ds) of
           Inl x \<Rightarrow> (total_bytes, w1)
         | Inr ds_ref \<Rightarrow>
             if upper (or_empty (location ds_ref)) \<noteq> loc then (total_bytes, w1)
             else
               (let req = TableStorage project_id (dataset_id ds_ref) (location ds_ref);
                    w2 = emit (Query req) w1
                in case first_cell (metadata_rows c req) of
                     Inl x \<Rightarrow> (total_bytes, w2)
                   | Inr logical_bytes \<Rightarrow> (total_bytes + logical_bytes, w2)))"

text \<open>The fallback: \<^verbatim>\<open>for ds in client.list_datasets(project=project_id): ...\<close>. An
  exception of the iterator itself is outside the \<^verbatim>\<open>try\<close> and leaves the function.\<close>

definition datasets_loop ::
  "client \<Rightarrow> string \<Rightarrow> string \<Rightarrow> int \<Rightarrow> world \<Rightarrow> (exn + int) \<times> world"
where
  "datasets_loop c project_id loc total_bytes w =
     (let listing = list_datasets c project_id;
          w0 = emit (ListDatasets project_id) w;
          tw = foldl (dataset_step c project_id loc) (total_bytes, w0) (fst listing)
      in case snd listing of
           None \<Rightarrow> (Inr (fst tw), snd tw)
         | Some x \<Rightarrow> (Inl x, snd tw))"

text \<open>
  The outer loop of \<^verbatim>\<open>_sum_storage_bytes\<close>:
  \<^verbatim>\<open>
  for region in regions:
      location = _region_to_location(region)
      try:
          sql = f"... FROM `{region}`.INFORMATION_SCHEMA.TABLE_STORAGE_BY_PROJECT ..."
          job = client.query(sql, job_config=..., location=location)
          total_bytes += int(list(job)[0]["logical_bytes"])
          continue
      except Exception:
          pass
      for ds in client.list_datasets(project=project_id): ...
  return total_bytes
  \<close>
\<close>

fun storage_loop ::
  "client \<Rightarrow> string \<Rightarrow> string list \<Rightarrow> int \<Rightarrow> world \<Rightarrow> (exn + int) \<times> world"
where
  "storage_loop c project_id [] total_bytes w = (Inr total_bytes, w)"
| "storage_loop c project_id (region # regions) total_bytes w =
     (case region_to_location region of
        Inl x \<Rightarrow> (Inl x, w)
      | Inr loc \<Rightarrow>
          (let req = TableStorageByProject region project_id loc;
               w1 = emit (Query req) w
           in case first_cell (metadata_rows c req) of
                Inr logical_bytes \<Rightarrow>
                  storage_loop c project_id regions (total_bytes + logical_bytes) w1
              | Inl x \<Rightarrow>
                  (case datasets_loop c project_id loc total_bytes w1 of
                     (Inl y, w2) \<Rightarrow> (Inl y, w2)
                   | (Inr total_bytes', w2) \<Rightarrow>
                       storage_loop c project_id regions total_bytes' w2)))"

text \<open>\<^verbatim>\<open>if not project_id: project_id = client.project\<close>\<close>

definition sum_storage_bytes ::
  "client \<Rightarrow> string list \<Rightarrow> string option \<Rightarrow> world \<Rightarrow> (exn + int) \<times> world"
where
  "sum_storage_bytes c regions project_id w =
     storage_loop c (if truthy project_id then or_empty project_id else project c) regions 0 w"

subsection \<open>The cost estimator\<close>

definition estimate_query_bytes ::
  "client \<Rightarrow> string \<Rightarrow> string option \<Rightarrow> world \<Rightarrow> (exn + int) \<times> world"
where
  "estimate_query_bytes c sql loc w =
     (total_bytes_processed c sql loc, emit (Query (DryRun sql loc)) w)"

subsection \<open>The quota guard\<close>

text \<open>
  The two checks and the result of \<^verbatim>\<open>check_free_tier_allowance\<close> (lines 142 to 163),
  on the numbers that the probes and the estimator gave:
  \<^verbatim>\<open>
  if used_query + planned > query_limit_bytes:
      remain_tb = (query_limit_bytes - used_query) / 1024**4
      raise RuntimeError(f"... {used_query/1024**4:.3f} TB; ... {planned/1024**4:.3f} TB; "
                         f"... {max(remain_tb, 0):.3f} TB.")
  if used_storage > storage_limit_bytes:
      raise RuntimeError(f"... {used_storage/1024**3:.2f} GB (... {storage_limit_bytes/1024**3:.0f} GB).")
  return {"used_query_bytes": used_query, "planned_query_bytes": planned,
          "query_limit_bytes": query_limit_bytes, "used_storage_bytes": used_storage,
          "storage_limit_bytes": storage_limit_bytes}
  \<close>
\<close>

definition quota_checks :: "int \<Rightarrow> int \<Rightarrow> int \<Rightarrow> int \<Rightarrow> int \<Rightarrow> exn + (string \<rightharpoonup> int)" where
  "quota_checks used_query used_storage planned query_limit_bytes storage_limit_bytes =
     (if used_query + planned > query_limit_bytes then
        (let remain = (of_int (query_limit_bytes - used_query) / 1024 ^ 4 :: rat)
         in Inl (RuntimeError (QueryLimitMessage
                   (of_int used_query / 1024 ^ 4) (of_int planned / 1024 ^ 4) (max remain 0))))
      else if used_storage > storage_limit_bytes then
        Inl (RuntimeError (StorageLimitMessage
               (of_int used_storage / 1024 ^ 3) (of_int storage_limit_bytes / 1024 ^ 3)))
      else
        Inr [''used_query_bytes'' \<mapsto> used_query,
             ''planned_query_bytes'' \<mapsto> planned,
             ''query_limit_bytes'' \<mapsto> query_limit_bytes,
             ''used_storage_bytes'' \<mapsto> used_storage,
             ''storage_limit_bytes'' \<mapsto> storage_limit_bytes])"

text \<open>
  \<^verbatim>\<open>
  if planned_query_sql:
      planned = estimate_query_bytes(client, planned_query_sql, location=planned_query_location)
  \<close>
  with \<^verbatim>\<open>planned = 0\<close> before it.
\<close>

definition planned_bytes ::
  "client \<Rightarrow> string option \<Rightarrow> string option \<Rightarrow> world \<Rightarrow> (exn + int) \<times> world"
where
  "planned_bytes c planned_query_sql planned_query_location w =
     (if truthy planned_query_sql
      then estimate_query_bytes c (or_empty planned_query_sql) planned_query_location w
      else (Inr 0, w))"

text \<open>
  \<^verbatim>\<open>
  def check_free_tier_allowance(client, *, project_id=None, regions=DEFAULT_REGIONS,
          planned_query_sql=None, planned_query_location=None,
          query_limit_bytes=QUERY_LIMIT_BYTES, storage_limit_bytes=STORAGE_LIMIT_BYTES):
      if not project_id:
          project_id = client.project
      used_query = _sum_query_bytes_billed(client, regions)
      used_storage = _sum_storage_bytes(client, regions, project_id)
      planned = 0
      if planned_query_sql: ...
      ...
  \<close>
\<close>

definition QUERY_LIMIT_BYTES :: int where
  "QUERY_LIMIT_BYTES = 1 * 1024 ^ 4"

definition STORAGE_LIMIT_BYTES :: int where
  "STORAGE_LIMIT_BYTES = 10 * 1024 ^ 3"

definition DEFAULT_REGIONS :: "string list" where
  "DEFAULT_REGIONS = [''region-eu'', ''region-us'']"

definition check_free_tier_allowance ::
  "client \<Rightarrow> string option \<Rightarrow> string list \<Rightarrow> string option \<Rightarrow> string option \<Rightarrow> int \<Rightarrow> int \<Rightarrow>
   world \<Rightarrow> (exn + (string \<rightharpoonup> int)) \<times> world"
where
  "check_free_tier_allowance c project_id regions planned_query_sql planned_query_location
       query_limit_bytes storage_limit_bytes w =
     (let project_id' = (if truthy project_id then or_empty project_id else project c)
      in case sum_query_bytes_billed c regions w of
           (Inl x, w1) \<Rightarrow> (Inl x, w1)
         | (Inr used_query, w1) \<Rightarrow>
             (case sum_storage_bytes c regions (Some project_id') w1 of
                (Inl x, w2) \<Rightarrow> (Inl x, w2)
              | (Inr used_storage, w2) \<Rightarrow>
                  (case planned_bytes c planned_query_sql planned_query_location w2 of
                     (Inl x, w3) \<Rightarrow> (Inl x, w3)
                   | (Inr planned, w3) \<Rightarrow>
                       (quota_checks used_query used_storage planned
                          query_limit_bytes storage_limit_bytes, w3))))"

subsection \<open>The safe executor\<close>







subsection \<open>Notions used in the properties\<close>

text \<open>The events that stand for a dry run, for the real query, and for the fallback.\<close>

fun is_dry_run :: "event \<Rightarrow> bool" where
  "is_dry_run (Query (DryRun sql loc)) = True"
| "is_dry_run _ = False"


fun is_list_datasets :: "event \<Rightarrow> bool" where
  "is_list_datasets (ListDatasets p) = True"
| "is_list_datasets _ = False"

text \<open>The events of the usage probe: its three metadata queries, the listing of the
  datasets and the reading of one dataset.\<close>

fun is_probe :: "event \<Rightarrow> bool" where
  "is_probe (Query (JobsByProject region s e loc)) = True"
| "is_probe (Query (TableStorageByProject region p loc)) = True"
| "is_probe (Query (TableStorage p d loc)) = True"
| "is_probe (ListDatasets p) = True"
| "is_probe (GetDataset r) = True"
| "is_probe _ = False"

text \<open>
  What one dataset adds to the total, in the words of the specification: its logical bytes
  when its metadata can be read, its location in upper case is the location of the region
  and its storage query answers; nothing otherwise.
\<close>

definition dataset_bytes :: "client \<Rightarrow> string \<Rightarrow> string \<Rightarrow> dataset_list_item \<Rightarrow> int" where
  "dataset_bytes c project_id loc ds =
     (case get_dataset c (reference ds) of
        Inl x \<Rightarrow> 0
      | Inr ds_ref \<Rightarrow>
          if upper (or_empty (location ds_ref)) = loc then
            (case first_cell (metadata_rows c
                    (TableStorage project_id (dataset_id ds_ref) (location ds_ref))) of
               Inl x \<Rightarrow> 0
             | Inr logical_bytes \<Rightarrow> logical_bytes)
          else 0)"

text \<open>How often the datasets have been listed, that is, how often the fallback has run.\<close>

definition list_datasets_calls :: "world \<Rightarrow> nat" where
  "list_datasets_calls w = length (filter is_list_datasets (trace w))"

text \<open>The project-wide storage query of a region fails.\<close>

definition fast_path_fails :: "client \<Rightarrow> string \<Rightarrow> string \<Rightarrow> bool" where
  "fast_path_fails c project_id region =
     (case region_to_location region of
        Inl x \<Rightarrow> False
      | Inr loc \<Rightarrow>
          (case first_cell (metadata_rows c (TableStorageByProject region project_id loc)) of
             Inl x \<Rightarrow> True
           | Inr logical_bytes \<Rightarrow> False))"

text \<open>
  A client for the examples. It has billed \<open>billed\<close> bytes in every region, answers the
  project-wide storage query in the US (with \<open>stored\<close> bytes) and refuses it elsewhere,
  lists three datasets, of which \<open>sales\<close> is in the EU and stores \<open>stored\<close> bytes,
  \<open>logs\<close> is in the US and its storage cannot be queried, and \<open>broken\<close> cannot be read,
  and estimates every query at \<open>estimate\<close> bytes.
\<close>

definition example_client :: "int \<Rightarrow> int \<Rightarrow> int \<Rightarrow> client" where
  "example_client billed stored estimate =
     \<lparr>project = ''demo'',
      metadata_rows = (\<lambda>req. case req of
          JobsByProject region s e loc \<Rightarrow> Inr [billed]
        | TableStorageByProject region p loc \<Rightarrow>
            if loc = ''US'' then Inr [stored] else Inl (OtherException ''Forbidden'')
        | TableStorage p d loc \<Rightarrow>
            if d = ''sales'' then Inr [stored] else Inl (OtherException ''NotFound'')
        | DryRun sql loc \<Rightarrow> Inl (OtherException ''BadRequest'')
        | UserQuery sql cfg loc \<Rightarrow> Inl (OtherException ''BadRequest'')),
      total_bytes_processed = (\<lambda>sql loc. Inr estimate),
      list_datasets = (\<lambda>p.
          ([\<lparr>reference = \<lparr>ref_project = p, ref_dataset_id = ''sales''\<rparr>\<rparr>,
            \<lparr>reference = \<lparr>ref_project = p, ref_dataset_id = ''logs''\<rparr>\<rparr>,
            \<lparr>reference = \<lparr>ref_project = p, ref_dataset_id = ''broken''\<rparr>\<rparr>], None)),
      get_dataset = (\<lambda>r.
          if ref_dataset_id r = ''sales'' then Inr \<lparr>dataset_id = ''sales'', location = Some ''eu''\<rparr>
          else if ref_dataset_id r = ''logs'' then Inr \<lparr>dataset_id = ''logs'', location = Some ''US''\<rparr>
          else Inl (OtherException ''NotFound'')),
      run_query = (\<lambda>sql cfg loc. Inr 1),
      result_dataframe = (\<lambda>job timeout. Inr [[1]])\<rparr>"

definition example_world :: "datetime \<Rightarrow> world" where
  "example_world now = \<lparr>utcnow = now, trace = []\<rparr>"

definition feb_2024 :: datetime where
  "feb_2024 = \<lparr>year = 2024, month = 2, day = 17, hour = 8, minute = 5, second = 9,
      microsecond = 44\<rparr>"


section \<open>Properties\<close>

subsection \<open>Region names\<close>

lemma isspace_upper_char: "isspace (upper_char c) = isspace c"
  by (auto simp: isspace_def upper_char_def Let_def)

lemma lstrip_upper: "lstrip (upper s) = upper (lstrip s)"
  by (simp add: lstrip_def upper_def dropWhile_map comp_def isspace_upper_char)

lemma rstrip_upper: "rstrip (upper s) = upper (rstrip s)"
  by (simp add: rstrip_def upper_def dropWhile_map comp_def isspace_upper_char rev_map)

lemma strip_upper: "strip (upper s) = upper (strip s)"
  by (simp add: strip_def lstrip_upper rstrip_upper)

lemma lstrip_pad: "\<forall>c\<in>set l. isspace c \<Longrightarrow> lstrip (l @ s) = lstrip s"
  by (simp add: lstrip_def)

lemma rstrip_pad: "\<forall>c\<in>set r. isspace c \<Longrightarrow> rstrip (s @ r) = rstrip s"
  using dropWhile_append2 [of "rev r" isspace "rev s"] by (simp add: rstrip_def)

lemma strip_pad:
  assumes l: "\<forall>c\<in>set l. isspace c" and r: "\<forall>c\<in>set r. isspace c"
  shows "strip (l @ s @ r) = strip s"
proof -
  have a: "strip (l @ s @ r) = rstrip (lstrip (s @ r))"
    using l by (simp add: strip_def lstrip_pad)
  show ?thesis
  proof (cases "\<forall>c\<in>set s. isspace c")
    case True
    then have "lstrip (s @ r) = []" "lstrip s = []"
      using r by (auto simp: lstrip_def)
    then show ?thesis using a by (simp add: strip_def)
  next
    case False
    then have "lstrip (s @ r) = lstrip s @ r"
      by (auto simp: lstrip_def)
    then show ?thesis using a r by (simp add: strip_def rstrip_pad)
  qed
qed

lemma split1_region: "getitem (split1 (''region-'' @ t) CHR ''-'') 1 = Inr t"
  by (simp add: split1_def getitem_def)

lemma startswith_region: "startswith r ''region-'' \<Longrightarrow> r = ''region-'' @ drop 7 r"
proof -
  assume a: "startswith r ''region-''"
  have len: "length ''region-'' = 7" by simp
  have "take 7 r = ''region-''" using a unfolding startswith_def len .
  then show ?thesis using append_take_drop_id [of 7 r] by simp
qed

lemma upper_short: "upper r \<in> set [''EU'', ''US''] \<Longrightarrow> \<not> startswith r ''region-''"
  by (auto simp: startswith_def upper_def)

lemma region_to_location_eq:
  "region_to_location s =
     Inr (if startswith (strip s) ''region-'' then upper (drop 7 (strip s)) else upper (strip s))"
proof (cases "startswith (strip s) ''region-''")
  case True
  then have r: "strip s = ''region-'' @ drop 7 (strip s)" by (rule startswith_region)
  have n: "upper (strip s) \<notin> set [''EU'', ''US'']" using True upper_short by blast
  have "getitem (split1 (strip s) CHR ''-'') 1 = Inr (drop 7 (strip s))"
    using split1_region [of "drop 7 (strip s)"] r by simp
  then show ?thesis using True n by (simp add: region_to_location_def Let_def del: set_simps)
next
  case False
  then show ?thesis by (simp add: region_to_location_def Let_def)
qed

lemma region_to_location_pad:
  "\<forall>c\<in>set l. isspace c \<Longrightarrow> \<forall>c\<in>set r. isspace c \<Longrightarrow>
   region_to_location (l @ s @ r) = region_to_location s"
  by (simp add: region_to_location_def strip_pad)

lemma region_to_location_case:
  assumes u: "upper s = upper t"
    and p: "startswith (strip s) ''region-'' = startswith (strip t) ''region-''"
  shows "region_to_location s = region_to_location t"
proof -
  have "upper (strip s) = upper (strip t)"
    using u strip_upper [of s] strip_upper [of t] by simp
  moreover from this have "upper (drop 7 (strip s)) = upper (drop 7 (strip t))"
    by (simp add: upper_def drop_map [symmetric])
  ultimately show ?thesis using p by (simp add: region_to_location_eq)
qed

text \<open>
  C4 (as stated, refuted): the claim has every case variant of a region spelling normalise
  to the same code. \<open>Region-EU\<close> and \<open>region-eu\<close> differ in case only, and the first
  gives \<open>REGION-EU\<close>, the second \<open>EU\<close>: the prefix \<open>region-\<close> is matched with
  \<^verbatim>\<open>startswith\<close>, in lower case only.
\<close>

theorem region_to_location_case_counterexample:
  "upper ''Region-EU'' = upper ''region-eu'' \<and>
   region_to_location ''Region-EU'' = Inr ''REGION-EU'' \<and>
   region_to_location ''region-eu'' = Inr ''EU'' \<and>
   region_to_location ''Region-EU'' \<noteq> region_to_location ''region-eu''"
  by code_simp

text \<open>
  C4 (amended): \<open>region-eu\<close> gives \<open>EU\<close>, \<open>region-us\<close> gives \<open>US\<close>, \<open>EU\<close> gives \<open>EU\<close>
  and \<open>us\<close> gives \<open>US\<close>; whitespace around the input is ignored; two inputs that differ in
  case only give the same code when their trimmed forms both start with the lower-case
  prefix \<open>region-\<close> or both do not; the result is the upper-cased trimmed input, without
  the first seven characters when it starts with the lower-case \<open>region-\<close>.
\<close>

theorem region_to_location_normalization:
  "region_to_location ''region-eu'' = Inr ''EU'' \<and>
   region_to_location ''region-us'' = Inr ''US'' \<and>
   region_to_location ''EU'' = Inr ''EU'' \<and>
   region_to_location ''us'' = Inr ''US'' \<and>
   ((\<forall>c\<in>set l. isspace c) \<and> (\<forall>c\<in>set r. isspace c) \<longrightarrow>
      region_to_location (l @ s @ r) = region_to_location s) \<and>
   (upper s = upper t \<and> startswith (strip s) ''region-'' = startswith (strip t) ''region-'' \<longrightarrow>
      region_to_location s = region_to_location t) \<and>
   region_to_location s =
     Inr (if startswith (strip s) ''region-'' then upper (drop 7 (strip s)) else upper (strip s))"
proof -
  have "region_to_location ''region-eu'' = Inr ''EU''" by code_simp
  moreover have "region_to_location ''region-us'' = Inr ''US''" by code_simp
  moreover have "region_to_location ''EU'' = Inr ''EU''" by code_simp
  moreover have "region_to_location ''us'' = Inr ''US''" by code_simp
  ultimately show ?thesis
    using region_to_location_pad [of l r s] region_to_location_case [of s t]
      region_to_location_eq [of s]
    by blast
qed

theorem region_to_location_normalization_witness:
  "isspace CHR '' '' \<and> isspace CHR 0x09 \<and> isspace CHR 0x0A \<and>
   region_to_location (''  '' @ ''region-Eu'' @ [CHR 0x09, CHR 0x0A]) = region_to_location ''region-Eu'' \<and>
   upper ''region-Eu'' = upper ''region-eU'' \<and>
   startswith (strip ''region-Eu'') ''region-'' = startswith (strip ''region-eU'') ''region-'' \<and>
   region_to_location ''region-Eu'' = region_to_location ''region-eU'' \<and>
   region_to_location ''region-Eu'' = Inr ''EU''"
proof -
  have h1: "\<forall>c\<in>set ''  ''. isspace c" by code_simp
  have h2: "\<forall>c\<in>set [CHR 0x09, CHR 0x0A]. isspace c" by code_simp
  have h3: "upper ''region-Eu'' = upper ''region-eU''" by code_simp
  have h4: "startswith (strip ''region-Eu'') ''region-'' = startswith (strip ''region-eU'') ''region-''"
    by code_simp
  have v: "Inr (if startswith (strip ''region-Eu'') ''region-''
                then upper (drop 7 (strip ''region-Eu'')) else upper (strip ''region-Eu''))
           = (Inr ''EU'' :: exn + string)"
    by code_simp
  note t = region_to_location_normalization
      [of "''  ''" "[CHR 0x09, CHR 0x0A]" "''region-Eu''" "''region-eU''"]
  have a: "region_to_location (''  '' @ ''region-Eu'' @ [CHR 0x09, CHR 0x0A])
           = region_to_location ''region-Eu''"
    using t h1 h2 by blast
  have b: "region_to_location ''region-Eu'' = region_to_location ''region-eU''"
    using t h3 h4 by blast
  have "region_to_location ''region-Eu'' =
          Inr (if startswith (strip ''region-Eu'') ''region-''
               then upper (drop 7 (strip ''region-Eu'')) else upper (strip ''region-Eu''))"
    using t by blast
  then have c: "region_to_location ''region-Eu'' = Inr ''EU''"
    using v by (rule trans)
  have sp: "isspace CHR '' ''" "isspace CHR 0x09" "isspace CHR 0x0A"
    using h1 h2 by simp_all
  show ?thesis
    using sp h3 h4 a b c by blast
qed

subsection \<open>Month bounds\<close>

lemma plus_days_28:
  assumes "day d = 28" "1 \<le> month d" "month d \<le> 12"
    "\<not> (year d = MAXYEAR \<and> month d = 12)" "year d \<le> MAXYEAR"
  shows "\<exists>later. plus_days d 4 = Inr later \<and>
           year later = (if month d = 12 then year d + 1 else year d) \<and>
           month later = (if month d = 12 then 1 else month d + 1) \<and>
           1 \<le> day later \<and> day later \<le> 4 \<and>
           hour later = hour d \<and> minute later = minute d \<and> second later = second d \<and>
           microsecond later = microsecond d"
proof -
  have "days_in_month (year d) (month d) \<in> {28, 29, 30, 31}"
    using assms by (simp add: days_in_month_def)
  then consider "days_in_month (year d) (month d) = 28"
    | "days_in_month (year d) (month d) = 29"
    | "days_in_month (year d) (month d) = 30"
    | "days_in_month (year d) (month d) = 31"
    by auto
  then show ?thesis
  proof cases
    case 1
    then show ?thesis using assms
      by (auto simp: numeral_eq_Suc next_day_def Let_def MAXYEAR_def days_in_month_def
          split: if_splits)
  next
    case 2
    then show ?thesis using assms
      by (auto simp: numeral_eq_Suc next_day_def Let_def MAXYEAR_def days_in_month_def
          split: if_splits)
  next
    case 3
    then show ?thesis using assms
      by (auto simp: numeral_eq_Suc next_day_def Let_def MAXYEAR_def days_in_month_def
          split: if_splits)
  next
    case 4
    then show ?thesis using assms
      by (auto simp: numeral_eq_Suc next_day_def Let_def MAXYEAR_def days_in_month_def
          split: if_splits)
  qed
qed

lemma month_bounds_utc_eq:
  assumes v: "valid_datetime now" and nd: "\<not> (year now = MAXYEAR \<and> month now = 12)"
  shows "month_bounds_utc now =
           Inr (now\<lparr>day := 1, hour := 0, minute := 0, second := 0, microsecond := 0\<rparr>,
                first_of_next_month now)"
proof -
  let ?start = "now\<lparr>day := 1, hour := 0, minute := 0, second := 0, microsecond := 0\<rparr>"
  have dim: "28 \<le> days_in_month (year now) (month now)"
    by (simp add: days_in_month_def)
  have s: "checked ?start = Inr ?start"
    using v dim by (simp add: checked_def valid_datetime_def)
  have d28: "checked (?start\<lparr>day := 28\<rparr>) = Inr (?start\<lparr>day := 28\<rparr>)"
    using v dim by (simp add: checked_def valid_datetime_def)
  obtain later where l: "plus_days (?start\<lparr>day := 28\<rparr>) 4 = Inr later"
    and ly: "year later = (if month now = 12 then year now + 1 else year now)"
    and lm: "month later = (if month now = 12 then 1 else month now + 1)"
    and lt: "hour later = 0" "minute later = 0" "second later = 0" "microsecond later = 0"
    using plus_days_28 [of "?start\<lparr>day := 28\<rparr>"] v nd
    by (auto simp: valid_datetime_def)
  have e: "later\<lparr>day := 1\<rparr> = first_of_next_month now"
    using ly lm lt by (simp add: first_of_next_month_def)
  have "valid_datetime (first_of_next_month now)"
    using v nd
    by (auto simp: valid_datetime_def first_of_next_month_def days_in_month_def
        MINYEAR_def MAXYEAR_def)
  then have c: "checked (later\<lparr>day := 1\<rparr>) = Inr (first_of_next_month now)"
    using e by (simp add: checked_def)
  show ?thesis
    using s d28 l c unfolding month_bounds_utc_def by simp
qed

lemma start_less_next_month:
  "1 \<le> month now \<Longrightarrow> month now \<le> 12 \<Longrightarrow>
   datetime_less (now\<lparr>day := 1, hour := 0, minute := 0, second := 0, microsecond := 0\<rparr>)
     (first_of_next_month now)"
  by (simp add: datetime_less_def datetime_key_def first_of_next_month_def)

text \<open>
  C3 (as stated, refuted): the claim is for every current date. The type holds the years
  up to 9999, so in December 9999 the day that is four days after the 28th is outside it:
  the addition raises \<^verbatim>\<open>OverflowError\<close> and no pair is computed.
\<close>

theorem month_bounds_utc_counterexample:
  "valid_datetime \<lparr>year = 9999, month = 12, day = 15, hour = 10, minute = 30, second = 0,
      microsecond = 0\<rparr> \<and>
   month_bounds_utc \<lparr>year = 9999, month = 12, day = 15, hour = 10, minute = 30, second = 0,
      microsecond = 0\<rparr> = Inl OverflowError"
  by code_simp

text \<open>
  C3 (amended): for every current date before December 9999, \<open>month_bounds_utc\<close> returns a
  pair \<open>(start, end)\<close> with \<open>end > start\<close>, \<open>start\<close> the current year and month with
  day 1 and hour, minute, second and microsecond 0, and \<open>end\<close> the first instant of the
  month that follows, whatever the length of the month and across the end of a year.
\<close>

theorem month_bounds_utc_next_month:
  assumes "valid_datetime now" and "\<not> (year now = MAXYEAR \<and> month now = 12)"
  shows "\<exists>start end_of_month.
           month_bounds_utc now = Inr (start, end_of_month) \<and>
           datetime_less start end_of_month \<and>
           year start = year now \<and> month start = month now \<and> day start = 1 \<and>
           hour start = 0 \<and> minute start = 0 \<and> second start = 0 \<and> microsecond start = 0 \<and>
           year end_of_month = (if month now = 12 then year now + 1 else year now) \<and>
           month end_of_month = (if month now = 12 then 1 else month now + 1) \<and>
           day end_of_month = 1 \<and> hour end_of_month = 0 \<and> minute end_of_month = 0 \<and>
           second end_of_month = 0 \<and> microsecond end_of_month = 0"
proof -
  have m: "1 \<le> month now" "month now \<le> 12"
    using assms(1) by (simp_all add: valid_datetime_def)
  show ?thesis
    using month_bounds_utc_eq [OF assms] start_less_next_month [OF m]
    by (simp add: first_of_next_month_def)
qed

theorem month_bounds_utc_next_month_witness:
  "valid_datetime \<lparr>year = 2024, month = 2, day = 17, hour = 8, minute = 5, second = 9,
      microsecond = 44\<rparr> \<and>
   \<not> (year \<lparr>year = 2024, month = 2, day = 17, hour = 8, minute = 5, second = 9,
      microsecond = 44\<rparr> = MAXYEAR \<and>
      month \<lparr>year = 2024, month = 2, day = 17, hour = 8, minute = 5, second = 9,
      microsecond = 44\<rparr> = 12) \<and>
   month_bounds_utc \<lparr>year = 2024, month = 2, day = 17, hour = 8, minute = 5, second = 9,
      microsecond = 44\<rparr> =
     Inr (\<lparr>year = 2024, month = 2, day = 1, hour = 0, minute = 0, second = 0, microsecond = 0\<rparr>,
          \<lparr>year = 2024, month = 3, day = 1, hour = 0, minute = 0, second = 0, microsecond = 0\<rparr>) \<and>
   datetime_less
     \<lparr>year = 2024, month = 2, day = 1, hour = 0, minute = 0, second = 0, microsecond = 0\<rparr>
     \<lparr>year = 2024, month = 3, day = 1, hour = 0, minute = 0, second = 0, microsecond = 0\<rparr>"
proof -
  let ?now = "\<lparr>year = 2024, month = 2, day = 17, hour = 8, minute = 5, second = 9,
      microsecond = 44\<rparr>"
  have h1: "valid_datetime ?now" by code_simp
  have h2: "\<not> (year ?now = MAXYEAR \<and> month ?now = 12)" by (simp add: MAXYEAR_def)
  from month_bounds_utc_next_month [OF h1 h2]
  obtain s e where r: "month_bounds_utc ?now = Inr (s, e)"
    and f: "datetime_less s e" "year s = 2024" "month s = 2" "day s = 1" "hour s = 0"
      "minute s = 0" "second s = 0" "microsecond s = 0"
      "year e = 2024" "month e = 3" "day e = 1" "hour e = 0" "minute e = 0" "second e = 0"
      "microsecond e = 0"
    by auto
  have "s = \<lparr>year = 2024, month = 2, day = 1, hour = 0, minute = 0, second = 0, microsecond = 0\<rparr>"
    using f by (cases s) simp
  moreover have "e = \<lparr>year = 2024, month = 3, day = 1, hour = 0, minute = 0, second = 0, microsecond = 0\<rparr>"
    using f by (cases e) simp
  ultimately show ?thesis using h1 h2 r f(1) by simp
qed

text \<open>The two examples of the claim: a leap February, and December across the year.\<close>

lemma month_bounds_utc_examples:
  "month_bounds_utc \<lparr>year = 2024, month = 2, day = 29, hour = 23, minute = 59, second = 59,
      microsecond = 999999\<rparr> =
     Inr (\<lparr>year = 2024, month = 2, day = 1, hour = 0, minute = 0, second = 0, microsecond = 0\<rparr>,
          \<lparr>year = 2024, month = 3, day = 1, hour = 0, minute = 0, second = 0, microsecond = 0\<rparr>)"
  "month_bounds_utc \<lparr>year = 2024, month = 12, day = 1, hour = 0, minute = 0, second = 0,
      microsecond = 0\<rparr> =
     Inr (\<lparr>year = 2024, month = 12, day = 1, hour = 0, minute = 0, second = 0, microsecond = 0\<rparr>,
          \<lparr>year = 2025, month = 1, day = 1, hour = 0, minute = 0, second = 0, microsecond = 0\<rparr>)"
  by code_simp+

subsection \<open>The quota guard\<close>

lemma sum_storage_bytes_resolved:
  "sum_storage_bytes c regions (Some (if truthy p then or_empty p else project c)) w =
   sum_storage_bytes c regions p w"
  by (cases p) (simp_all add: sum_storage_bytes_def truthy_def or_empty_def)

lemma check_free_tier_allowance_eq:
  assumes "sum_query_bytes_billed c regions w = (Inr used_query, w1)"
    and "sum_storage_bytes c regions project_id w1 = (Inr used_storage, w2)"
    and "planned_bytes c planned_query_sql planned_query_location w2 = (Inr planned, w3)"
  shows "check_free_tier_allowance c project_id regions planned_query_sql planned_query_location
           query_limit_bytes storage_limit_bytes w =
         (quota_checks used_query used_storage planned query_limit_bytes storage_limit_bytes, w3)"
  using assms
  by (simp add: check_free_tier_allowance_def sum_storage_bytes_resolved)

lemma quota_checks_Inr_iff:
  "(\<exists>stats. quota_checks uq us p ql sl = Inr stats) \<longleftrightarrow> (uq + p \<le> ql \<and> us \<le> sl)"
  by (auto simp: quota_checks_def Let_def)

lemma quota_checks_Inr:
  "quota_checks uq us p ql sl = Inr stats \<Longrightarrow>
   stats = [''used_query_bytes'' \<mapsto> uq, ''planned_query_bytes'' \<mapsto> p,
            ''query_limit_bytes'' \<mapsto> ql, ''used_storage_bytes'' \<mapsto> us,
            ''storage_limit_bytes'' \<mapsto> sl]"
  by (auto simp: quota_checks_def Let_def split: if_splits)

text \<open>
  C1: when the probes and the estimator give \<open>used_query\<close>, \<open>used_storage\<close> and
  \<open>planned\<close>, \<open>check_free_tier_allowance\<close> returns normally if and only if
  \<open>used_query + planned \<le> query_limit_bytes\<close> and \<open>used_storage \<le> storage_limit_bytes\<close>,
  and what it returns then is the dictionary of exactly these five values.
\<close>

theorem check_free_tier_allowance_returns_iff:
  assumes "sum_query_bytes_billed c regions w = (Inr used_query, w1)"
    and "sum_storage_bytes c regions project_id w1 = (Inr used_storage, w2)"
    and "planned_bytes c planned_query_sql planned_query_location w2 = (Inr planned, w3)"
  shows "((\<exists>stats. fst (check_free_tier_allowance c project_id regions planned_query_sql
                planned_query_location query_limit_bytes storage_limit_bytes w) = Inr stats)
          \<longleftrightarrow> (used_query + planned \<le> query_limit_bytes \<and> used_storage \<le> storage_limit_bytes)) \<and>
         (\<forall>stats. fst (check_free_tier_allowance c project_id regions planned_query_sql
                planned_query_location query_limit_bytes storage_limit_bytes w) = Inr stats
            \<longrightarrow> stats = [''used_query_bytes'' \<mapsto> used_query,
                         ''planned_query_bytes'' \<mapsto> planned,
                         ''query_limit_bytes'' \<mapsto> query_limit_bytes,
                         ''used_storage_bytes'' \<mapsto> used_storage,
                         ''storage_limit_bytes'' \<mapsto> storage_limit_bytes])"
  using check_free_tier_allowance_eq [OF assms, of query_limit_bytes storage_limit_bytes]
    quota_checks_Inr_iff [of used_query used_storage planned query_limit_bytes storage_limit_bytes]
    quota_checks_Inr [of used_query used_storage planned query_limit_bytes storage_limit_bytes]
  by simp

theorem check_free_tier_allowance_returns_iff_witness:
  "fst (sum_query_bytes_billed (example_client 5 7 9) [''region-eu''] (example_world feb_2024))
     = Inr 5 \<and>
   fst (sum_storage_bytes (example_client 5 7 9) [''region-eu''] None
          (snd (sum_query_bytes_billed (example_client 5 7 9) [''region-eu'']
                  (example_world feb_2024))))
     = Inr 7 \<and>
   fst (planned_bytes (example_client 5 7 9) (Some ''select 1'') None
          (snd (sum_storage_bytes (example_client 5 7 9) [''region-eu''] None
                  (snd (sum_query_bytes_billed (example_client 5 7 9) [''region-eu'']
                          (example_world feb_2024))))))
     = Inr 9 \<and>
   fst (check_free_tier_allowance (example_client 5 7 9) None [''region-eu'']
          (Some ''select 1'') None 14 7 (example_world feb_2024))
     = Inr [''used_query_bytes'' \<mapsto> 5, ''planned_query_bytes'' \<mapsto> 9,
            ''query_limit_bytes'' \<mapsto> 14, ''used_storage_bytes'' \<mapsto> 7,
            ''storage_limit_bytes'' \<mapsto> 7]"
proof -
  let ?c = "example_client 5 7 9"
  let ?w1 = "snd (sum_query_bytes_billed ?c [''region-eu''] (example_world feb_2024))"
  let ?w2 = "snd (sum_storage_bytes ?c [''region-eu''] None ?w1)"
  let ?w3 = "snd (planned_bytes ?c (Some ''select 1'') None ?w2)"
  have f1: "fst (sum_query_bytes_billed ?c [''region-eu''] (example_world feb_2024)) = Inr 5"
    by code_simp
  have f2: "fst (sum_storage_bytes ?c [''region-eu''] None ?w1) = Inr 7"
    by code_simp
  have f3: "fst (planned_bytes ?c (Some ''select 1'') None ?w2) = Inr 9"
    by code_simp
  have h1: "sum_query_bytes_billed ?c [''region-eu''] (example_world feb_2024) = (Inr 5, ?w1)"
    using f1 by (simp add: prod_eq_iff)
  have h2: "sum_storage_bytes ?c [''region-eu''] None ?w1 = (Inr 7, ?w2)"
    using f2 by (simp add: prod_eq_iff)
  have h3: "planned_bytes ?c (Some ''select 1'') None ?w2 = (Inr 9, ?w3)"
    using f3 by (simp add: prod_eq_iff)
  note t = check_free_tier_allowance_returns_iff [OF h1 h2 h3, of 14 7]
  from t obtain stats where s: "fst (check_free_tier_allowance ?c None [''region-eu'']
      (Some ''select 1'') None 14 7 (example_world feb_2024)) = Inr stats"
    by auto
  with t have "stats = [''used_query_bytes'' \<mapsto> 5, ''planned_query_bytes'' \<mapsto> 9,
            ''query_limit_bytes'' \<mapsto> 14, ''used_storage_bytes'' \<mapsto> 7,
            ''storage_limit_bytes'' \<mapsto> 7]"
    by blast
  with s f1 f2 f3 show ?thesis by simp
qed





subsection \<open>What the guard sends to the client\<close>

text \<open>The probes add events of the probe only: a property of events that no event of the
  probe has is as frequent in the trace after a probe as before it.\<close>

lemma jobs_loop_filter:
  assumes "\<And>ev. is_probe ev \<Longrightarrow> \<not> P ev"
  shows "filter P (trace (snd (jobs_loop c s e regions tot w))) = filter P (trace w)"
  using assms
  by (induction regions arbitrary: tot w) (simp_all add: emit_def Let_def split: sum.splits)

lemma sum_query_bytes_billed_filter:
  assumes "\<And>ev. is_probe ev \<Longrightarrow> \<not> P ev"
  shows "filter P (trace (snd (sum_query_bytes_billed c regions w))) = filter P (trace w)"
  using jobs_loop_filter [OF assms]
  by (simp add: sum_query_bytes_billed_def split: sum.splits prod.splits)

lemma dataset_step_filter:
  assumes "\<And>ev. is_probe ev \<Longrightarrow> \<not> P ev"
  shows "filter P (trace (snd (dataset_step c project_id loc tw ds))) = filter P (trace (snd tw))"
  using assms
  by (simp add: dataset_step_def emit_def Let_def split: sum.splits)

lemma foldl_dataset_step_filter:
  assumes "\<And>ev. is_probe ev \<Longrightarrow> \<not> P ev"
  shows "filter P (trace (snd (foldl (dataset_step c project_id loc) tw items)))
         = filter P (trace (snd tw))"
  by (induction items arbitrary: tw) (simp_all add: dataset_step_filter [OF assms])

lemma datasets_loop_filter:
  assumes "\<And>ev. is_probe ev \<Longrightarrow> \<not> P ev"
  shows "filter P (trace (snd (datasets_loop c project_id loc total_bytes w))) = filter P (trace w)"
  using assms foldl_dataset_step_filter [OF assms]
  by (simp add: datasets_loop_def emit_def Let_def split: option.splits)

lemma storage_loop_filter:
  assumes "\<And>ev. is_probe ev \<Longrightarrow> \<not> P ev"
  shows "filter P (trace (snd (storage_loop c project_id regions total_bytes w)))
         = filter P (trace w)"
proof (induction regions arbitrary: total_bytes w)
  case Nil
  show ?case by simp
next
  case (Cons region regions)
  show ?case
  proof (cases "region_to_location region")
    case (Inl x)
    then show ?thesis by simp
  next
    case (Inr loc)
    let ?req = "TableStorageByProject region project_id loc"
    let ?w1 = "emit (Query ?req) w"
    have w1: "filter P (trace ?w1) = filter P (trace w)"
      using assms by (simp add: emit_def)
    show ?thesis
    proof (cases "first_cell (metadata_rows c ?req)")
      case fast: (Inr logical_bytes)
      show ?thesis using Inr fast Cons.IH w1 by (simp add: Let_def)
    next
      case slow: (Inl x)
      obtain r w2 where d: "datasets_loop c project_id loc total_bytes ?w1 = (r, w2)"
        by (cases "datasets_loop c project_id loc total_bytes ?w1")
      have w2: "filter P (trace w2) = filter P (trace w)"
        using datasets_loop_filter [where P = P and c = c and project_id = project_id and loc = loc
            and total_bytes = total_bytes and w = ?w1, OF assms] d w1
        by simp
      show ?thesis using Inr slow d w2 Cons.IH by (cases r) (simp_all add: Let_def)
    qed
  qed
qed

lemma sum_storage_bytes_filter:
  assumes "\<And>ev. is_probe ev \<Longrightarrow> \<not> P ev"
  shows "filter P (trace (snd (sum_storage_bytes c regions project_id w))) = filter P (trace w)"
  by (simp add: sum_storage_bytes_def storage_loop_filter [OF assms])

lemma planned_bytes_filter:
  assumes "\<And>sql loc. \<not> P (Query (DryRun sql loc))"
  shows "filter P (trace (snd (planned_bytes c planned_query_sql planned_query_location w)))
         = filter P (trace w)"
  using assms by (simp add: planned_bytes_def estimate_query_bytes_def emit_def)

lemma planned_bytes_absent:
  "\<not> truthy planned_query_sql \<Longrightarrow>
   planned_bytes c planned_query_sql planned_query_location w = (Inr 0, w)"
  by (simp add: planned_bytes_def)

lemma check_free_tier_allowance_filter:
  assumes p: "\<And>ev. is_probe ev \<Longrightarrow> \<not> P ev"
    and d: "truthy planned_query_sql \<Longrightarrow> (\<And>sql loc. \<not> P (Query (DryRun sql loc)))"
  shows "filter P (trace (snd (check_free_tier_allowance c project_id regions planned_query_sql
            planned_query_location query_limit_bytes storage_limit_bytes w)))
         = filter P (trace w)"
proof -
  obtain r1 w1 where q: "sum_query_bytes_billed c regions w = (r1, w1)"
    by (cases "sum_query_bytes_billed c regions w")
  have f1: "filter P (trace w1) = filter P (trace w)"
    using sum_query_bytes_billed_filter [where P = P and c = c and regions = regions and w = w, OF p] q by simp
  obtain r2 w2 where s: "sum_storage_bytes c regions project_id w1 = (r2, w2)"
    by (cases "sum_storage_bytes c regions project_id w1")
  have f2: "filter P (trace w2) = filter P (trace w)"
    using sum_storage_bytes_filter [where P = P and c = c and regions = regions
        and project_id = project_id and w = w1, OF p] s f1 by simp
  obtain r3 w3 where e: "planned_bytes c planned_query_sql planned_query_location w2 = (r3, w3)"
    by (cases "planned_bytes c planned_query_sql planned_query_location w2")
  have f3: "filter P (trace w3) = filter P (trace w)"
  proof (cases "truthy planned_query_sql")
    case True
    then show ?thesis
      using planned_bytes_filter [of P c planned_query_sql planned_query_location w2] d e f2
      by simp
  next
    case False
    then show ?thesis using planned_bytes_absent [OF False, of c planned_query_location w2] e f2
      by simp
  qed
  show ?thesis
    using q s e f1 f2 f3
    by (cases r1; cases r2; cases r3)
      (simp_all add: check_free_tier_allowance_def sum_storage_bytes_resolved)
qed


lemma quota_checks_Inl:
  "quota_checks uq us p ql sl = Inl x \<Longrightarrow> \<exists>m. x = RuntimeError m"
  by (auto simp: quota_checks_def Let_def split: if_splits)



lemma probe_not_dry_run: "is_probe ev \<Longrightarrow> \<not> is_dry_run ev"
  by (cases ev rule: is_probe.cases) simp_all


lemma check_free_tier_allowance_dry_runs:
  "\<not> truthy planned_query_sql \<Longrightarrow>
   filter is_dry_run (trace (snd (check_free_tier_allowance c project_id regions
       planned_query_sql planned_query_location query_limit_bytes storage_limit_bytes w)))
   = filter is_dry_run (trace w)"
  by (rule check_free_tier_allowance_filter) (simp_all add: probe_not_dry_run)

subsection \<open>An empty list of regions\<close>




subsection \<open>The safe executor\<close>






subsection \<open>Absent arguments\<close>

lemma falsy_iff: "\<not> truthy s \<longleftrightarrow> s = None \<or> s = Some []"
  by (cases s) (simp_all add: truthy_def)

lemma check_free_tier_allowance_planned_zero:
  assumes "\<not> truthy planned_query_sql"
    and "fst (check_free_tier_allowance c project_id regions planned_query_sql
            planned_query_location query_limit_bytes storage_limit_bytes w) = Inr stats"
  shows "stats ''planned_query_bytes'' = Some 0"
proof -
  obtain r1 w1 where q: "sum_query_bytes_billed c regions w = (r1, w1)"
    by (cases "sum_query_bytes_billed c regions w")
  obtain r2 w2 where s: "sum_storage_bytes c regions project_id w1 = (r2, w2)"
    by (cases "sum_storage_bytes c regions project_id w1")
  have e: "planned_bytes c planned_query_sql planned_query_location w2 = (Inr 0, w2)"
    using assms(1) by (rule planned_bytes_absent)
  from assms(2) q s e obtain uq us where "quota_checks uq us 0 query_limit_bytes
      storage_limit_bytes = Inr stats"
    by (cases r1; cases r2)
      (simp_all add: check_free_tier_allowance_def sum_storage_bytes_resolved)
  then show ?thesis
    using quota_checks_Inr by fastforce
qed

lemma check_free_tier_allowance_default_project:
  assumes "\<not> truthy project_id"
  shows "check_free_tier_allowance c project_id regions planned_query_sql
           planned_query_location query_limit_bytes storage_limit_bytes w =
         check_free_tier_allowance c (Some (project c)) regions planned_query_sql
           planned_query_location query_limit_bytes storage_limit_bytes w"
proof -
  have "\<And>w1. sum_storage_bytes c regions project_id w1 =
             sum_storage_bytes c regions (Some (project c)) w1"
    using assms by (simp add: sum_storage_bytes_def truthy_def or_empty_def)
  then have "\<And>w1. sum_storage_bytes c regions
                 (Some (if truthy project_id then or_empty project_id else project c)) w1 =
             sum_storage_bytes c regions
                 (Some (if truthy (Some (project c)) then or_empty (Some (project c))
                        else project c)) w1"
    by (simp only: sum_storage_bytes_resolved)
  then show ?thesis
    by (simp only: check_free_tier_allowance_def Let_def)
qed

text \<open>
  C10: a planned query that is \<^verbatim>\<open>None\<close> or the empty string counts as absent: the planned
  bytes are 0 and the world is not touched, the check adds no dry run to the trace, and a
  snapshot it returns has 0 planned bytes. A project that is \<^verbatim>\<open>None\<close> or the empty
  string is the project of the client: the check is the check for that project, and the
  storage probe runs its loop for that project.
\<close>

theorem falsy_arguments_are_absent:
  "(planned_query_sql = None \<or> planned_query_sql = Some [] \<longrightarrow>
      planned_bytes c planned_query_sql planned_query_location w' = (Inr 0, w') \<and>
      filter is_dry_run
        (trace (snd (check_free_tier_allowance c project_id regions planned_query_sql
           planned_query_location query_limit_bytes storage_limit_bytes w)))
        = filter is_dry_run (trace w) \<and>
      (\<forall>stats. fst (check_free_tier_allowance c project_id regions planned_query_sql
             planned_query_location query_limit_bytes storage_limit_bytes w) = Inr stats
          \<longrightarrow> stats ''planned_query_bytes'' = Some 0)) \<and>
   (project_id = None \<or> project_id = Some [] \<longrightarrow>
      check_free_tier_allowance c project_id regions planned_query_sql
          planned_query_location query_limit_bytes storage_limit_bytes w =
        check_free_tier_allowance c (Some (project c)) regions planned_query_sql
          planned_query_location query_limit_bytes storage_limit_bytes w \<and>
      sum_storage_bytes c regions project_id w = storage_loop c (project c) regions 0 w)"
proof (intro conjI impI allI)
  assume "planned_query_sql = None \<or> planned_query_sql = Some []"
  then have f: "\<not> truthy planned_query_sql" by (simp add: falsy_iff)
  show "planned_bytes c planned_query_sql planned_query_location w' = (Inr 0, w')"
    using f by (rule planned_bytes_absent)
  show "filter is_dry_run
        (trace (snd (check_free_tier_allowance c project_id regions planned_query_sql
           planned_query_location query_limit_bytes storage_limit_bytes w)))
        = filter is_dry_run (trace w)"
    using f by (rule check_free_tier_allowance_dry_runs)
  fix stats
  assume "fst (check_free_tier_allowance c project_id regions planned_query_sql
             planned_query_location query_limit_bytes storage_limit_bytes w) = Inr stats"
  with f show "stats ''planned_query_bytes'' = Some 0"
    by (rule check_free_tier_allowance_planned_zero)
next
  assume "project_id = None \<or> project_id = Some []"
  then have f: "\<not> truthy project_id" by (simp add: falsy_iff)
  show "check_free_tier_allowance c project_id regions planned_query_sql
          planned_query_location query_limit_bytes storage_limit_bytes w =
        check_free_tier_allowance c (Some (project c)) regions planned_query_sql
          planned_query_location query_limit_bytes storage_limit_bytes w"
    using f by (rule check_free_tier_allowance_default_project)
  show "sum_storage_bytes c regions project_id w = storage_loop c (project c) regions 0 w"
    using f by (simp add: sum_storage_bytes_def)
qed

theorem falsy_arguments_are_absent_witness:
  "planned_bytes (example_client 5 7 9) (Some []) None (example_world feb_2024)
     = (Inr 0, example_world feb_2024) \<and>
   filter is_dry_run
     (trace (snd (check_free_tier_allowance (example_client 5 7 9) None [''region-eu'']
        (Some []) None QUERY_LIMIT_BYTES STORAGE_LIMIT_BYTES (example_world feb_2024)))) = [] \<and>
   (case fst (check_free_tier_allowance (example_client 5 7 9) None [''region-eu'']
        (Some []) None QUERY_LIMIT_BYTES STORAGE_LIMIT_BYTES (example_world feb_2024)) of
      Inl x \<Rightarrow> False
    | Inr stats \<Rightarrow> stats ''planned_query_bytes'' = Some 0 \<and>
        stats ''used_query_bytes'' = Some 5 \<and> stats ''used_storage_bytes'' = Some 7) \<and>
   check_free_tier_allowance (example_client 5 7 9) None [''region-eu'']
       (Some []) None QUERY_LIMIT_BYTES STORAGE_LIMIT_BYTES (example_world feb_2024) =
     check_free_tier_allowance (example_client 5 7 9) (Some ''demo'') [''region-eu'']
       (Some []) None QUERY_LIMIT_BYTES STORAGE_LIMIT_BYTES (example_world feb_2024) \<and>
   sum_storage_bytes (example_client 5 7 9) [''region-eu''] None (example_world feb_2024) =
     storage_loop (example_client 5 7 9) ''demo'' [''region-eu''] 0 (example_world feb_2024)"
proof -
  let ?c = "example_client 5 7 9"
  let ?chk = "check_free_tier_allowance ?c None [''region-eu''] (Some []) None
                QUERY_LIMIT_BYTES STORAGE_LIMIT_BYTES (example_world feb_2024)"
  have p: "project ?c = ''demo''" by (simp add: example_client_def)
  have e: "filter is_dry_run (trace (example_world feb_2024)) = []"
    by (simp add: example_world_def)
  have h1: "(Some [] :: string option) = None \<or> (Some [] :: string option) = Some []"
    by simp
  have h2: "(None :: string option) = None \<or> (None :: string option) = Some []"
    by simp
  note t = falsy_arguments_are_absent
    [where c = ?c and planned_query_sql = "Some []" and project_id = None
       and regions = "[''region-eu'']" and planned_query_location = None
       and query_limit_bytes = QUERY_LIMIT_BYTES and storage_limit_bytes = STORAGE_LIMIT_BYTES
       and w = "example_world feb_2024" and w' = "example_world feb_2024"]
  have v: "case fst ?chk of
      Inl x \<Rightarrow> False
    | Inr stats \<Rightarrow> stats ''used_query_bytes'' = Some 5 \<and> stats ''used_storage_bytes'' = Some 7"
    by code_simp
  then obtain stats where s: "fst ?chk = Inr stats"
    and u: "stats ''used_query_bytes'' = Some 5" "stats ''used_storage_bytes'' = Some 7"
    by (cases "fst ?chk") auto
  from t h1 s have z: "stats ''planned_query_bytes'' = Some 0" by blast
  from t h1 have
    a: "planned_bytes ?c (Some []) None (example_world feb_2024) = (Inr 0, example_world feb_2024)"
    and b0: "filter is_dry_run (trace (snd ?chk)) = filter is_dry_run (trace (example_world feb_2024))"
    by blast+
  from t h2 have
    c0: "?chk = check_free_tier_allowance ?c (Some (project ?c)) [''region-eu''] (Some []) None
              QUERY_LIMIT_BYTES STORAGE_LIMIT_BYTES (example_world feb_2024)"
    and d0: "sum_storage_bytes ?c [''region-eu''] None (example_world feb_2024) =
            storage_loop ?c (project ?c) [''region-eu''] 0 (example_world feb_2024)"
    by blast+
  have b: "filter is_dry_run (trace (snd ?chk)) = []"
    using b0 e by (rule trans)
  have c: "?chk = check_free_tier_allowance ?c (Some ''demo'') [''region-eu''] (Some []) None
              QUERY_LIMIT_BYTES STORAGE_LIMIT_BYTES (example_world feb_2024)"
    using c0 unfolding p .
  have d: "sum_storage_bytes ?c [''region-eu''] None (example_world feb_2024) =
            storage_loop ?c ''demo'' [''region-eu''] 0 (example_world feb_2024)"
    using d0 unfolding p .
  have k: "case fst ?chk of
      Inl x \<Rightarrow> False
    | Inr stats \<Rightarrow> stats ''planned_query_bytes'' = Some 0 \<and>
        stats ''used_query_bytes'' = Some 5 \<and> stats ''used_storage_bytes'' = Some 7"
    using s u z by simp
  show ?thesis
    using a b k c d by (intro conjI)
qed

subsection \<open>The fallback of the storage probe\<close>

lemma dataset_step_total:
  "fst (dataset_step c project_id loc tw ds) = fst tw + dataset_bytes c project_id loc ds"
  by (simp add: dataset_step_def dataset_bytes_def Let_def split: sum.splits)

lemma dataset_step_calls:
  "list_datasets_calls (snd (dataset_step c project_id loc tw ds)) = list_datasets_calls (snd tw)"
  by (simp add: dataset_step_def list_datasets_calls_def emit_def Let_def split: sum.splits)

lemma foldl_dataset_step_total:
  "fst (foldl (dataset_step c project_id loc) tw items)
   = fst tw + sum_list (map (dataset_bytes c project_id loc) items)"
  by (induction items arbitrary: tw) (simp_all add: dataset_step_total)

lemma foldl_dataset_step_calls:
  "list_datasets_calls (snd (foldl (dataset_step c project_id loc) tw items))
   = list_datasets_calls (snd tw)"
  by (induction items arbitrary: tw) (simp_all add: dataset_step_calls)

lemma datasets_loop_calls:
  "list_datasets_calls (snd (datasets_loop c project_id loc total_bytes w))
   = list_datasets_calls w + 1"
proof -
  have "list_datasets_calls (emit (ListDatasets project_id) w) = list_datasets_calls w + 1"
    by (simp add: list_datasets_calls_def emit_def)
  then show ?thesis
    by (simp add: datasets_loop_def Let_def foldl_dataset_step_calls split: option.splits)
qed

lemma datasets_loop_total:
  "snd (list_datasets c project_id) = None \<Longrightarrow>
   fst (datasets_loop c project_id loc total_bytes w)
   = Inr (total_bytes + sum_list (map (dataset_bytes c project_id loc)
                                    (fst (list_datasets c project_id))))"
  by (simp add: datasets_loop_def Let_def foldl_dataset_step_total)

lemma storage_loop_fast:
  assumes "region_to_location region = Inr loc"
    and "first_cell (metadata_rows c (TableStorageByProject region project_id loc)) = Inr v"
  shows "storage_loop c project_id (region # regions) total_bytes w =
         storage_loop c project_id regions (total_bytes + v)
           (emit (Query (TableStorageByProject region project_id loc)) w)"
  using assms by (simp add: Let_def)

lemma storage_loop_slow:
  assumes "region_to_location region = Inr loc"
    and "first_cell (metadata_rows c (TableStorageByProject region project_id loc)) = Inl x"
  shows "storage_loop c project_id (region # regions) total_bytes w =
         (case datasets_loop c project_id loc total_bytes
                 (emit (Query (TableStorageByProject region project_id loc)) w) of
            (Inl y, w2) \<Rightarrow> (Inl y, w2)
          | (Inr total_bytes', w2) \<Rightarrow> storage_loop c project_id regions total_bytes' w2)"
  using assms by (simp add: Let_def)

lemma emit_query_calls: "list_datasets_calls (emit (Query req) w) = list_datasets_calls w"
  by (simp add: list_datasets_calls_def emit_def)

lemma storage_loop_step:
  "storage_loop c project_id (region # regions) total_bytes w =
     (case storage_loop c project_id [region] total_bytes w of
        (Inl y, w2) \<Rightarrow> (Inl y, w2)
      | (Inr total_bytes', w2) \<Rightarrow> storage_loop c project_id regions total_bytes' w2)"
proof -
  obtain loc where loc: "region_to_location region = Inr loc"
    using region_to_location_eq by blast
  let ?w1 = "emit (Query (TableStorageByProject region project_id loc)) w"
  show ?thesis
  proof (cases "first_cell (metadata_rows c (TableStorageByProject region project_id loc))")
    case (Inr v)
    show ?thesis
      using storage_loop_fast [OF loc Inr] by simp
  next
    case (Inl x)
    obtain r w2 where d: "datasets_loop c project_id loc total_bytes ?w1 = (r, w2)"
      by (cases "datasets_loop c project_id loc total_bytes ?w1")
    show ?thesis
      using storage_loop_slow [OF loc Inl] d by (cases r) simp_all
  qed
qed

lemma storage_loop_all_regions:
  assumes "snd (list_datasets c project_id) = None"
  shows "(\<exists>t. fst (storage_loop c project_id regions total_bytes w) = Inr t) \<and>
         list_datasets_calls (snd (storage_loop c project_id regions total_bytes w))
         = list_datasets_calls w + length (filter (fast_path_fails c project_id) regions)"
proof (induction regions arbitrary: total_bytes w)
  case Nil
  show ?case by simp
next
  case (Cons region regions)
  obtain loc where loc: "region_to_location region = Inr loc"
    using region_to_location_eq by blast
  let ?w1 = "emit (Query (TableStorageByProject region project_id loc)) w"
  show ?case
  proof (cases "first_cell (metadata_rows c (TableStorageByProject region project_id loc))")
    case (Inr v)
    have "\<not> fast_path_fails c project_id region"
      using loc Inr by (simp add: fast_path_fails_def)
    then show ?thesis
      using storage_loop_fast [OF loc Inr] Cons.IH [of "total_bytes + v" ?w1]
      by (simp add: emit_query_calls)
  next
    case (Inl x)
    have f: "fast_path_fails c project_id region"
      using loc Inl by (simp add: fast_path_fails_def)
    obtain t where t: "fst (datasets_loop c project_id loc total_bytes ?w1) = Inr t"
      using datasets_loop_total [OF assms] by blast
    obtain w2 where d: "datasets_loop c project_id loc total_bytes ?w1 = (Inr t, w2)"
      using t by (cases "datasets_loop c project_id loc total_bytes ?w1") simp
    have "list_datasets_calls w2 = list_datasets_calls w + 1"
      using datasets_loop_calls [of c project_id loc total_bytes ?w1] d
      by (simp add: emit_query_calls)
    then show ?thesis
      using storage_loop_slow [OF loc Inl] d f Cons.IH [of t w2] by simp
  qed
qed

text \<open>
  C8: for a region with location \<open>loc\<close>, on its own (the list of the one region) and in
  the loop over the regions. If the project-wide query answers, its bytes are added and the
  datasets are not listed. If it fails with any exception, the datasets are listed exactly
  once; if the listing itself does not fail, the result is not an exception, whatever the
  datasets raise, and what is added is the sum over the listed datasets of \<open>dataset_bytes\<close>:
  the bytes of a dataset whose location in upper case is \<open>loc\<close>, and nothing for a dataset of
  another location or one whose processing raised. The loop treats the regions one after
  the other in this way, and, when the listing does not fail, it returns a number and has
  listed the datasets once for each region whose project-wide query failed.
\<close>

theorem sum_storage_bytes_fallback:
  assumes "region_to_location region = Inr loc"
  shows "(\<forall>v. first_cell (metadata_rows c (TableStorageByProject region project_id loc)) = Inr v \<longrightarrow>
            storage_loop c project_id [region] total_bytes w =
              (Inr (total_bytes + v),
               emit (Query (TableStorageByProject region project_id loc)) w) \<and>
            list_datasets_calls (snd (storage_loop c project_id [region] total_bytes w))
              = list_datasets_calls w) \<and>
         (\<forall>x. first_cell (metadata_rows c (TableStorageByProject region project_id loc)) = Inl x \<longrightarrow>
            list_datasets_calls (snd (storage_loop c project_id [region] total_bytes w))
              = list_datasets_calls w + 1 \<and>
            (snd (list_datasets c project_id) = None \<longrightarrow>
               fst (storage_loop c project_id [region] total_bytes w) =
                 Inr (total_bytes + sum_list (map (dataset_bytes c project_id loc)
                                                (fst (list_datasets c project_id)))))) \<and>
         storage_loop c project_id (region # regions) total_bytes w =
           (case storage_loop c project_id [region] total_bytes w of
              (Inl y, w2) \<Rightarrow> (Inl y, w2)
            | (Inr total_bytes', w2) \<Rightarrow> storage_loop c project_id regions total_bytes' w2) \<and>
         (snd (list_datasets c project_id) = None \<longrightarrow>
            (\<exists>t. fst (storage_loop c project_id rs total_bytes w) = Inr t) \<and>
            list_datasets_calls (snd (storage_loop c project_id rs total_bytes w))
              = list_datasets_calls w + length (filter (fast_path_fails c project_id) rs))"
proof (intro conjI allI impI)
  fix v
  assume v: "first_cell (metadata_rows c (TableStorageByProject region project_id loc)) = Inr v"
  show "storage_loop c project_id [region] total_bytes w =
          (Inr (total_bytes + v), emit (Query (TableStorageByProject region project_id loc)) w)"
    using storage_loop_fast [OF assms v] by simp
  then show "list_datasets_calls (snd (storage_loop c project_id [region] total_bytes w))
          = list_datasets_calls w"
    by (simp add: emit_query_calls)
next
  fix x
  assume x: "first_cell (metadata_rows c (TableStorageByProject region project_id loc)) = Inl x"
  let ?w1 = "emit (Query (TableStorageByProject region project_id loc)) w"
  obtain r w2 where d: "datasets_loop c project_id loc total_bytes ?w1 = (r, w2)"
    by (cases "datasets_loop c project_id loc total_bytes ?w1")
  have s: "storage_loop c project_id [region] total_bytes w = (r, w2)"
    using storage_loop_slow [OF assms x, of "[]" total_bytes w] d by (cases r) simp_all
  show "list_datasets_calls (snd (storage_loop c project_id [region] total_bytes w))
          = list_datasets_calls w + 1"
    using datasets_loop_calls [of c project_id loc total_bytes ?w1] d s
    by (simp add: emit_query_calls)
  assume "snd (list_datasets c project_id) = None"
  then show "fst (storage_loop c project_id [region] total_bytes w) =
          Inr (total_bytes + sum_list (map (dataset_bytes c project_id loc)
                                         (fst (list_datasets c project_id))))"
    using datasets_loop_total [of c project_id loc total_bytes ?w1] d s by simp
next
  show "storage_loop c project_id (region # regions) total_bytes w =
           (case storage_loop c project_id [region] total_bytes w of
              (Inl y, w2) \<Rightarrow> (Inl y, w2)
            | (Inr total_bytes', w2) \<Rightarrow> storage_loop c project_id regions total_bytes' w2)"
    by (rule storage_loop_step)
next
  assume n: "snd (list_datasets c project_id) = None"
  show "\<exists>t. fst (storage_loop c project_id rs total_bytes w) = Inr t"
    using storage_loop_all_regions [OF n] by blast
  show "list_datasets_calls (snd (storage_loop c project_id rs total_bytes w))
          = list_datasets_calls w + length (filter (fast_path_fails c project_id) rs)"
    using storage_loop_all_regions [OF n] by blast
qed

theorem sum_storage_bytes_fallback_witness:
  "region_to_location ''region-eu'' = Inr ''EU'' \<and>
   first_cell (metadata_rows (example_client 5 7 9) (TableStorageByProject ''region-eu'' ''demo'' ''EU''))
     = Inl (OtherException ''Forbidden'') \<and>
   snd (list_datasets (example_client 5 7 9) ''demo'') = None \<and>
   map (dataset_bytes (example_client 5 7 9) ''demo'' ''EU'')
     (fst (list_datasets (example_client 5 7 9) ''demo'')) = [7, 0, 0] \<and>
   list_datasets_calls (snd (storage_loop (example_client 5 7 9) ''demo'' [''region-eu''] 100
                               (example_world feb_2024))) = 1 \<and>
   fst (storage_loop (example_client 5 7 9) ''demo'' [''region-eu''] 100 (example_world feb_2024))
     = Inr 107 \<and>
   region_to_location ''us'' = Inr ''US'' \<and>
   first_cell (metadata_rows (example_client 5 7 9) (TableStorageByProject ''us'' ''demo'' ''US''))
     = Inr 7 \<and>
   storage_loop (example_client 5 7 9) ''demo'' [''us''] 100 (example_world feb_2024)
     = (Inr 107, emit (Query (TableStorageByProject ''us'' ''demo'' ''US'')) (example_world feb_2024)) \<and>
   list_datasets_calls (snd (storage_loop (example_client 5 7 9) ''demo'' [''us''] 100
                               (example_world feb_2024))) = 0 \<and>
   list_datasets_calls (snd (storage_loop (example_client 5 7 9) ''demo''
                               [''region-eu'', ''us'', ''region-asia''] 100
                               (example_world feb_2024))) = 2"
proof -
  let ?c = "example_client 5 7 9"
  let ?w = "example_world feb_2024"
  have eu: "region_to_location ''region-eu'' = Inr ''EU''" by code_simp
  have us: "region_to_location ''us'' = Inr ''US''" by code_simp
  have slow: "first_cell (metadata_rows ?c (TableStorageByProject ''region-eu'' ''demo'' ''EU''))
                = Inl (OtherException ''Forbidden'')"
    by code_simp
  have fast: "first_cell (metadata_rows ?c (TableStorageByProject ''us'' ''demo'' ''US'')) = Inr 7"
    by code_simp
  have n: "snd (list_datasets ?c ''demo'') = None" by code_simp
  have b: "map (dataset_bytes ?c ''demo'' ''EU'') (fst (list_datasets ?c ''demo'')) = [7, 0, 0]"
    by code_simp
  have z: "list_datasets_calls ?w = 0" by code_simp
  have k: "length (filter (fast_path_fails ?c ''demo'') [''region-eu'', ''us'', ''region-asia'']) = 2"
    by code_simp
  note t1 = sum_storage_bytes_fallback [OF eu, of ?c "''demo''" 100 ?w "[]"
      "[''region-eu'', ''us'', ''region-asia'']"]
  note t2 = sum_storage_bytes_fallback [OF us, of ?c "''demo''" 100 ?w "[]" "[]"]
  from t1 slow have "list_datasets_calls (snd (storage_loop ?c ''demo'' [''region-eu''] 100 ?w))
      = list_datasets_calls ?w + 1"
    by blast
  then have c1: "list_datasets_calls (snd (storage_loop ?c ''demo'' [''region-eu''] 100 ?w)) = 1"
    using z by simp
  from t1 slow n have "fst (storage_loop ?c ''demo'' [''region-eu''] 100 ?w) =
      Inr (100 + sum_list (map (dataset_bytes ?c ''demo'' ''EU'') (fst (list_datasets ?c ''demo''))))"
    by blast
  then have c2: "fst (storage_loop ?c ''demo'' [''region-eu''] 100 ?w) = Inr 107"
    using b by simp
  from t2 fast have c3: "storage_loop ?c ''demo'' [''us''] 100 ?w =
      (Inr (100 + 7), emit (Query (TableStorageByProject ''us'' ''demo'' ''US'')) ?w)"
    and "list_datasets_calls (snd (storage_loop ?c ''demo'' [''us''] 100 ?w))
      = list_datasets_calls ?w"
    by blast+
  then have c4: "list_datasets_calls (snd (storage_loop ?c ''demo'' [''us''] 100 ?w)) = 0"
    using z by simp
  from t1 n have "list_datasets_calls
      (snd (storage_loop ?c ''demo'' [''region-eu'', ''us'', ''region-asia''] 100 ?w))
      = list_datasets_calls ?w
        + length (filter (fast_path_fails ?c ''demo'') [''region-eu'', ''us'', ''region-asia''])"
    by blast
  then have c5: "list_datasets_calls
      (snd (storage_loop ?c ''demo'' [''region-eu'', ''us'', ''region-asia''] 100 ?w)) = 2"
    using z k by simp
  have c3': "storage_loop ?c ''demo'' [''us''] 100 ?w =
      (Inr 107, emit (Query (TableStorageByProject ''us'' ''demo'' ''US'')) ?w)"
    using c3 by simp
  show ?thesis
    using eu slow n b c1 c2 us fast c3' c4 c5 by (intro conjI)
qed

end
